theory Spec2Isabelle
  imports Complex_Main "HOL-Library.Log_Nat" "HOL-Library.Sublist"
begin

section \<open>Binary64 arithmetic, as far as the matchmaking scorer uses it\<close>

text \<open>
  The scorer of \<^verbatim>\<open>src/main.py\<close> computes with Python floats, that is IEEE 754 binary64
  numbers under round-to-nearest, ties-to-even. A finite double is modelled by its exact
  rational value; \<open>fl\<close> rounds a rational to the nearest number with a 53-bit significand.
  The exponent is unbounded in the model: every number the scorer rounds lies between
  \<open>0\<close> and the size of a list of tags, far from the overflow and underflow thresholds of
  binary64. A decimal literal of the source such as \<^verbatim>\<open>0.15\<close> denotes \<open>fl (15/100)\<close>,
  \<^verbatim>\<open>x + y\<close> is \<open>fadd x y\<close> and \<^verbatim>\<open>x * y\<close> is \<open>fmul x y\<close>.
\<close>

type_synonym double = rat

definition pow2 :: "int \<Rightarrow> rat" where
  "pow2 e = (if 0 \<le> e then 2 ^ nat e else 1 / 2 ^ nat (- e))"

text \<open>\<open>ilog2 q\<close> is the binary exponent of a positive rational: \<open>2^e \<le> q < 2^(e+1)\<close>.\<close>

definition ilog2 :: "rat \<Rightarrow> int" where
  "ilog2 q = (case quotient_of q of (a, b) \<Rightarrow>
     (let e0 = bitlen a - bitlen b
      in if pow2 e0 \<le> q then e0 else e0 - 1))"

definition round_half_even :: "rat \<Rightarrow> int" where
  "round_half_even q = (let f = \<lfloor>q\<rfloor>; d = q - of_int f in
     if d < 1/2 then f else if 1/2 < d then f + 1 else if even f then f else f + 1)"

definition fl :: "rat \<Rightarrow> double" where
  "fl q = (if q = 0 then 0 else
     (let u = pow2 (ilog2 \<bar>q\<bar> - 52) in of_int (round_half_even (q / u)) * u))"

definition fadd :: "double \<Rightarrow> double \<Rightarrow> double" where
  "fadd x y = fl (x + y)"

definition fmul :: "double \<Rightarrow> double \<Rightarrow> double" where
  "fmul x y = fl (x * y)"

text \<open>
  \<^verbatim>\<open>round(x, 2)\<close> of CPython prints the exact value of \<open>x\<close> with two decimals, correctly
  rounded (ties to even), and reads the decimal back as the nearest double.
\<close>

definition py_round2 :: "double \<Rightarrow> double" where
  "py_round2 x = fl (of_int (round_half_even (x * 100)) / 100)"

text \<open>
  A float that arrives in a request body or lies in a stored document may also be an
  infinity or a NaN; such values are only ever compared by the scorer.
\<close>

datatype pyfloat = Finite rat | PosInf | NegInf | NaN

fun float_le :: "pyfloat \<Rightarrow> pyfloat \<Rightarrow> bool" where
  "float_le NaN _ = False"
| "float_le _ NaN = False"
| "float_le NegInf _ = True"
| "float_le _ PosInf = True"
| "float_le (Finite a) (Finite b) = (a \<le> b)"
| "float_le _ _ = False"

section \<open>Schemas (\<^verbatim>\<open>src/schemas.py\<close>)\<close>

text \<open>
  The stage of a startup is one of six literals. Of each stored document the records below
  name the identifier the store assigned (\<open>oid\<close>, the text of \<^verbatim>\<open>str(d.get("_id"))\<close>) and the
  fields the matchmaking handler reads; the remaining fields of the schema ride in the
  extension slot of the record.
\<close>

datatype stage_literal = Idea | MVP | PreSeed | Seed | SeriesA | SeriesB

fun stage_name :: "stage_literal \<Rightarrow> string" where
  "stage_name Idea = ''idea''"
| "stage_name MVP = ''MVP''"
| "stage_name PreSeed = ''pre-seed''"
| "stage_name Seed = ''seed''"
| "stage_name SeriesA = ''series-a''"
| "stage_name SeriesB = ''series-b''"

record Startup =
  oid :: string
  industry :: "string list"
  stage :: stage_literal

record Investor =
  oid :: string
  geography :: "string option"
  ticket_min :: "pyfloat option"
  ticket_max :: "pyfloat option"

record Match =
  a_id :: string
  a_type :: string
  b_id :: string
  b_type :: string
  score :: double
  rationale :: "string option"

text \<open>The request body of \<^verbatim>\<open>POST /api/matchmaking\<close> (class \<^verbatim>\<open>MatchQuery\<close> of \<^verbatim>\<open>src/main.py\<close>).\<close>

record MatchQuery =
  industry :: "string list option"
  stage :: "string option"
  geography :: "string option"
  ticket_min :: "pyfloat option"
  ticket_max :: "pyfloat option"

datatype error = ValidationError

text \<open>
  The constructor of \<^verbatim>\<open>Match\<close> validates its arguments: both type tags are one of the two
  literals and the score satisfies \<^verbatim>\<open>ge=0, le=1\<close>.
\<close>

definition Match_init ::
  "string \<Rightarrow> string \<Rightarrow> string \<Rightarrow> string \<Rightarrow> double \<Rightarrow> string option \<Rightarrow> error + Match" where
  "Match_init aid atype bid btype sc why =
     (if atype \<in> {''startup'', ''investor''} \<and> btype \<in> {''startup'', ''investor''}
         \<and> 0 \<le> sc \<and> sc \<le> 1
      then Inr \<lparr>a_id = aid, a_type = atype, b_id = bid, b_type = btype,
                score = sc, rationale = why\<rparr>
      else Inl ValidationError)"

section \<open>The matchmaking handler (\<^verbatim>\<open>get_matches\<close> of \<^verbatim>\<open>src/main.py\<close>)\<close>

text \<open>
  The nested function \<^verbatim>\<open>score(si, inv)\<close> starts from \<^verbatim>\<open>s = 0.0\<close> and runs five guarded
  additions, one definition each below, before it clamps:
  \<^verbatim>\<open>
    if body.industry:
        overlap = len(set(si.get("industry", [])) & set(body.industry))
        s += min(0.4, 0.1 * overlap)
    if body.stage and body.stage == si.get("stage"):
        s += 0.2
    if body.geography and body.geography == inv.get("geography"):
        s += 0.1
    if body.ticket_min is not None and inv.get("ticket_min") is not None
          and inv.get("ticket_min") <= body.ticket_min:
        s += 0.15
    if body.ticket_max is not None and inv.get("ticket_max") is not None
          and inv.get("ticket_max") >= body.ticket_max:
        s += 0.15
    return max(0.0, min(1.0, s))
  \<close>
  An empty list and an empty string are false in a Python condition, as \<^verbatim>\<open>None\<close> is.
\<close>

definition industry_points :: "nat \<Rightarrow> double" where
  "industry_points overlap = min (fl (4/10)) (fmul (fl (1/10)) (fl (of_nat overlap)))"

definition add_industry :: "MatchQuery \<Rightarrow> 'a Startup_scheme \<Rightarrow> double \<Rightarrow> double" where
  "add_industry body si s =
     (case MatchQuery.industry body of
        None \<Rightarrow> s
      | Some [] \<Rightarrow> s
      | Some (t # ts) \<Rightarrow>
          fadd s (industry_points (card (set (Startup.industry si) \<inter> set (t # ts)))))"

definition add_stage :: "MatchQuery \<Rightarrow> 'a Startup_scheme \<Rightarrow> double \<Rightarrow> double" where
  "add_stage body si s =
     (if MatchQuery.stage body \<noteq> None \<and> MatchQuery.stage body \<noteq> Some []
         \<and> MatchQuery.stage body = Some (stage_name (Startup.stage si))
      then fadd s (fl (2/10)) else s)"

definition add_geography :: "MatchQuery \<Rightarrow> 'b Investor_scheme \<Rightarrow> double \<Rightarrow> double" where
  "add_geography body iv s =
     (if MatchQuery.geography body \<noteq> None \<and> MatchQuery.geography body \<noteq> Some []
         \<and> MatchQuery.geography body = Investor.geography iv
      then fadd s (fl (1/10)) else s)"

definition add_ticket_min :: "MatchQuery \<Rightarrow> 'b Investor_scheme \<Rightarrow> double \<Rightarrow> double" where
  "add_ticket_min body iv s =
     (case (MatchQuery.ticket_min body, Investor.ticket_min iv) of
        (Some want, Some held) \<Rightarrow> if float_le held want then fadd s (fl (15/100)) else s
      | _ \<Rightarrow> s)"

definition add_ticket_max :: "MatchQuery \<Rightarrow> 'b Investor_scheme \<Rightarrow> double \<Rightarrow> double" where
  "add_ticket_max body iv s =
     (case (MatchQuery.ticket_max body, Investor.ticket_max iv) of
        (Some want, Some held) \<Rightarrow> if float_le want held then fadd s (fl (15/100)) else s
      | _ \<Rightarrow> s)"

definition score :: "MatchQuery \<Rightarrow> 'a Startup_scheme \<Rightarrow> 'b Investor_scheme \<Rightarrow> double" where
  "score body si iv =
     max 0 (min 1
       (add_ticket_max body iv (add_ticket_min body iv (add_geography body iv
          (add_stage body si (add_industry body si 0))))))"

text \<open>
  The two loops append one validated \<^verbatim>\<open>Match\<close> per pair that reaches the threshold:
  \<^verbatim>\<open>
    for s in startups:
        for i in investors:
            sc = score(s, i)
            if sc >= 0.2:
                results.append(Match(a_id=str(s.get("_id")), a_type="startup",
                                     b_id=str(i.get("_id")), b_type="investor",
                                     score=round(sc, 2),
                                     rationale="Heuristic overlap on filters"))
  \<close>
\<close>

fun inner_loop ::
  "MatchQuery \<Rightarrow> 'a Startup_scheme \<Rightarrow> 'b Investor_scheme list \<Rightarrow> Match list \<Rightarrow> error + Match list" where
  "inner_loop body s [] results = Inr results"
| "inner_loop body s (i # investors) results =
     (let sc = score body s i in
      if fl (2/10) \<le> sc then
        (case Match_init (Startup.oid s) ''startup'' (Investor.oid i) ''investor''
                (py_round2 sc) (Some ''Heuristic overlap on filters'') of
           Inl e \<Rightarrow> Inl e
         | Inr m \<Rightarrow> inner_loop body s investors (results @ [m]))
      else inner_loop body s investors results)"

fun outer_loop ::
  "MatchQuery \<Rightarrow> 'a Startup_scheme list \<Rightarrow> 'b Investor_scheme list \<Rightarrow> Match list \<Rightarrow> error + Match list" where
  "outer_loop body [] investors results = Inr results"
| "outer_loop body (s # startups) investors results =
     (case inner_loop body s investors results of
        Inl e \<Rightarrow> Inl e
      | Inr results' \<Rightarrow> outer_loop body startups investors results')"

text \<open>
  \<^verbatim>\<open>results.sort(key=..., reverse=True)\<close>: CPython reverses the list, sorts it stably in
  ascending order of the key and reverses it again.
\<close>

definition sort_reverse :: "('a \<Rightarrow> 'k::linorder) \<Rightarrow> 'a list \<Rightarrow> 'a list" where
  "sort_reverse key xs = rev (sort_key key (rev xs))"

text \<open>
  The handler, over the contents of the two collections as \<^verbatim>\<open>get_documents\<close> returned them:
  \<^verbatim>\<open>
    results.sort(key=lambda m: m.score, reverse=True)
    return results[:50]
  \<close>
\<close>

definition get_matches ::
  "MatchQuery \<Rightarrow> 'a Startup_scheme list \<Rightarrow> 'b Investor_scheme list \<Rightarrow> error + Match list" where
  "get_matches body startups investors =
     (case outer_loop body startups investors [] of
        Inl e \<Rightarrow> Inl e
      | Inr results \<Rightarrow> Inr (take 50 (sort_reverse Match.score results)))"

text \<open>The record the loop body builds for a pair, and the test that admits the pair.\<close>

definition match_of :: "MatchQuery \<Rightarrow> 'a Startup_scheme \<times> 'b Investor_scheme \<Rightarrow> Match" where
  "match_of body p =
     \<lparr>a_id = Startup.oid (fst p), a_type = ''startup'',
      b_id = Investor.oid (snd p), b_type = ''investor'',
      score = py_round2 (score body (fst p) (snd p)),
      rationale = Some ''Heuristic overlap on filters''\<rparr>"

definition admitted :: "MatchQuery \<Rightarrow> 'a Startup_scheme \<times> 'b Investor_scheme \<Rightarrow> bool" where
  "admitted body p = (fl (2/10) \<le> score body (fst p) (snd p))"

section \<open>Example inputs\<close>

text \<open>
  A query for fintech startups at the seed stage with a ticket between 100000 and 500000,
  two startups and two investors. The pairs score, in enumeration order,
  \<open>0.15 + 0.15\<close>, \<open>0\<close>, \<open>0.1 + 0.2 + 0.15 + 0.15\<close> and \<open>0.1 + 0.2\<close>.
\<close>

definition query_ex :: MatchQuery where
  "query_ex = \<lparr>MatchQuery.industry = Some [''fintech''], MatchQuery.stage = Some ''seed'',
                MatchQuery.geography = None, MatchQuery.ticket_min = Some (Finite 100000),
                MatchQuery.ticket_max = Some (Finite 500000)\<rparr>"

definition startup_a :: Startup where
  "startup_a = \<lparr>Startup.oid = ''a'', Startup.industry = [''health''], Startup.stage = Idea\<rparr>"

definition startup_b :: Startup where
  "startup_b = \<lparr>Startup.oid = ''b'', Startup.industry = [''fintech'', ''ai''],
                 Startup.stage = Seed\<rparr>"

definition investor_x :: Investor where
  "investor_x = \<lparr>Investor.oid = ''x'', Investor.geography = None,
                  Investor.ticket_min = Some (Finite 50000),
                  Investor.ticket_max = Some (Finite 1000000)\<rparr>"

definition investor_y :: Investor where
  "investor_y = \<lparr>Investor.oid = ''y'', Investor.geography = None,
                  Investor.ticket_min = None, Investor.ticket_max = None\<rparr>"

section \<open>Properties of the rounding function\<close>

lemma pow2_powi: "pow2 e = 2 powi e"
  unfolding pow2_def power_int_def by (simp add: power_one_over inverse_eq_divide)

lemma pow2_pos: "0 < pow2 e"
  by (simp add: pow2_powi)

lemma pow2_add: "pow2 (a + b) = pow2 a * pow2 b"
  by (simp add: pow2_powi power_int_add)

lemma pow2_diff: "pow2 (a - b) = pow2 a / pow2 b"
proof -
  have "pow2 (a - b) * pow2 b = pow2 a"
    using pow2_add [of "a - b" b] by simp
  then show ?thesis
    using pow2_pos [of b] by (simp add: field_simps)
qed

lemma pow2_mono: "a \<le> b \<Longrightarrow> pow2 a \<le> pow2 b"
  by (simp add: pow2_powi power_int_increasing)

lemma pow2_less_cancel: "pow2 a < pow2 b \<Longrightarrow> a < b"
  using pow2_mono [of b a] by (cases "a < b") auto

lemma of_int_bitlen_bounds:
  assumes "0 < a"
  shows "pow2 (bitlen a - 1) \<le> of_int a" and "of_int a < pow2 (bitlen a)"
proof -
  from assms have b: "2 ^ nat (bitlen a - 1) \<le> a" "a < 2 ^ nat (bitlen a)"
    using bitlen_bounds [of a] by auto
  from assms have ge1: "1 \<le> bitlen a"
    by (auto simp: bitlen_alt_def)
  have "(of_int (2 ^ nat (bitlen a - 1)) :: rat) \<le> of_int a"
    using b(1) by (simp only: of_int_le_iff)
  then show "pow2 (bitlen a - 1) \<le> of_int a"
    using ge1 by (simp add: pow2_def)
  have "(of_int a :: rat) < of_int (2 ^ nat (bitlen a))"
    using b(2) by (simp only: of_int_less_iff)
  then show "of_int a < pow2 (bitlen a)"
    using ge1 by (simp add: pow2_def)
qed

lemma ilog2_bounds:
  assumes "0 < q"
  shows "pow2 (ilog2 q) \<le> q \<and> q < pow2 (ilog2 q + 1)"
proof -
  obtain a b where ab: "quotient_of q = (a, b)" by (cases "quotient_of q")
  then have bpos: "0 < b" and q: "q = of_int a / of_int b"
    by (auto simp: quotient_of_denom_pos quotient_of_div)
  with assms have apos: "0 < a"
    by (simp add: zero_less_divide_iff)
  let ?e0 = "bitlen a - bitlen b"
  have "q < pow2 (bitlen a) / pow2 (bitlen b - 1)"
    unfolding q using of_int_bitlen_bounds [OF apos] of_int_bitlen_bounds [OF bpos] apos pow2_pos [of "bitlen b - 1"]
    by (intro frac_less) auto
  also have "\<dots> = pow2 (?e0 + 1)"
    using pow2_diff [of "bitlen a" "bitlen b - 1"] by (simp add: algebra_simps)
  finally have up: "q < pow2 (?e0 + 1)" .
  have "pow2 (bitlen a - 1) / pow2 (bitlen b) < q"
    unfolding q using of_int_bitlen_bounds [OF apos] of_int_bitlen_bounds [OF bpos] bpos apos pow2_pos [of "bitlen a - 1"]
    by (intro frac_less2) auto
  moreover have "pow2 (bitlen a - 1) / pow2 (bitlen b) = pow2 (?e0 - 1)"
    using pow2_diff [of "bitlen a - 1" "bitlen b"] by (simp add: algebra_simps)
  ultimately have lo: "pow2 (?e0 - 1) < q" by simp
  show ?thesis
    using up lo by (auto simp: ilog2_def ab Let_def)
qed


lemma round_half_even_bounds:
  "\<lfloor>q\<rfloor> \<le> round_half_even q" "round_half_even q \<le> \<lfloor>q\<rfloor> + 1"
  by (simp_all add: round_half_even_def Let_def)

lemma round_half_even_of_int: "round_half_even (of_int n) = n"
  by (simp add: round_half_even_def)

lemma round_half_even_mono:
  assumes "p \<le> q"
  shows "round_half_even p \<le> round_half_even q"
proof (cases "\<lfloor>p\<rfloor> = \<lfloor>q\<rfloor>")
  case True
  with assms show ?thesis
    by (auto simp: round_half_even_def Let_def)
next
  case False
  with assms have "\<lfloor>p\<rfloor> + 1 \<le> \<lfloor>q\<rfloor>"
    using floor_mono [of p q] by linarith
  then show ?thesis
    using round_half_even_bounds(2) [of p] round_half_even_bounds(1) [of q] by linarith
qed

lemma fl_zero: "fl 0 = 0"
  by (simp add: fl_def)

lemma fl_bounds:
  assumes "0 < q"
  shows "pow2 (ilog2 q) \<le> fl q" and "fl q \<le> pow2 (ilog2 q + 1)"
proof -
  let ?u = "pow2 (ilog2 q - 52)"
  have u: "0 < ?u" by (rule pow2_pos)
  have flq: "fl q = of_int (round_half_even (q / ?u)) * ?u"
    using assms by (simp add: fl_def Let_def)
  have lo: "pow2 (ilog2 q) / ?u = of_int (2 ^ 52)"
    using pow2_diff [of "ilog2 q" "ilog2 q - 52"] by (simp add: pow2_def)
  have hi: "pow2 (ilog2 q + 1) / ?u = of_int (2 ^ 53)"
    using pow2_diff [of "ilog2 q + 1" "ilog2 q - 52"] by (simp add: pow2_def)
  have "of_int (2 ^ 52) \<le> q / ?u"
    unfolding lo [symmetric] using ilog2_bounds [OF assms] u by (simp add: divide_right_mono)
  then have "2 ^ 52 \<le> round_half_even (q / ?u)"
    using round_half_even_mono [of "of_int (2 ^ 52)" "q / ?u"]
    by (simp only: round_half_even_of_int)
  then have "(of_int (2 ^ 52) :: rat) \<le> of_int (round_half_even (q / ?u))"
    by (simp only: of_int_le_iff)
  then have "of_int (2 ^ 52) * ?u \<le> fl q"
    unfolding flq using u by (simp only: mult_le_cancel_right_pos)
  moreover have "of_int (2 ^ 52) * ?u = pow2 (ilog2 q)"
    using lo u by (simp add: field_simps)
  ultimately show "pow2 (ilog2 q) \<le> fl q" by simp
  have "q / ?u \<le> of_int (2 ^ 53)"
    unfolding hi [symmetric] using ilog2_bounds [OF assms] u by (simp add: divide_right_mono)
  then have "round_half_even (q / ?u) \<le> 2 ^ 53"
    using round_half_even_mono [of "q / ?u" "of_int (2 ^ 53)"]
    by (simp only: round_half_even_of_int)
  then have "of_int (round_half_even (q / ?u)) \<le> (of_int (2 ^ 53) :: rat)"
    by (simp only: of_int_le_iff)
  then have "fl q \<le> of_int (2 ^ 53) * ?u"
    unfolding flq using u by (simp only: mult_le_cancel_right_pos)
  moreover have "of_int (2 ^ 53) * ?u = pow2 (ilog2 q + 1)"
    using hi u by (simp add: field_simps)
  ultimately show "fl q \<le> pow2 (ilog2 q + 1)" by simp
qed

lemma ilog2_mono:
  assumes "0 < p" "p \<le> q"
  shows "ilog2 p \<le> ilog2 q"
proof -
  from assms have "0 < q" by simp
  have "pow2 (ilog2 p) \<le> p" using ilog2_bounds [OF assms(1)] by simp
  also note assms(2)
  also have "q < pow2 (ilog2 q + 1)" using ilog2_bounds [OF \<open>0 < q\<close>] by simp
  finally have "ilog2 p < ilog2 q + 1" by (rule pow2_less_cancel)
  then show ?thesis by simp
qed

lemma fl_nonneg: "0 \<le> q \<Longrightarrow> 0 \<le> fl q"
  using fl_bounds(1) [of q] pow2_pos [of "ilog2 q"] by (cases "q = 0") (simp_all add: fl_zero)

lemma fl_mono:
  assumes "0 \<le> p" "p \<le> q"
  shows "fl p \<le> fl q"
proof (cases "p = 0")
  case True
  with assms show ?thesis by (simp add: fl_zero fl_nonneg)
next
  case False
  with assms have p: "0 < p" and q: "0 < q" by simp_all
  show ?thesis
  proof (cases "ilog2 p = ilog2 q")
    case True
    let ?u = "pow2 (ilog2 q - 52)"
    have u: "0 < ?u" by (rule pow2_pos)
    have "p / ?u \<le> q / ?u"
      using assms(2) u by (simp add: divide_right_mono)
    then have "round_half_even (p / ?u) \<le> round_half_even (q / ?u)"
      by (rule round_half_even_mono)
    then have "(of_int (round_half_even (p / ?u)) :: rat) \<le> of_int (round_half_even (q / ?u))"
      by (simp only: of_int_le_iff)
    then have "of_int (round_half_even (p / ?u)) * ?u \<le> of_int (round_half_even (q / ?u)) * ?u"
      using u by (simp only: mult_le_cancel_right_pos)
    then show ?thesis
      using p q True by (simp add: fl_def Let_def)
  next
    case False
    with ilog2_mono [OF p assms(2)] have "ilog2 p + 1 \<le> ilog2 q" by simp
    then have "pow2 (ilog2 p + 1) \<le> pow2 (ilog2 q)" by (rule pow2_mono)
    with fl_bounds(2) [OF p] fl_bounds(1) [OF q] show ?thesis by linarith
  qed
qed

lemma fl_one: "fl 1 = 1"
  by code_simp

text \<open>Rules that let the simplifier round a concrete rational, binade by binade.\<close>

lemma ilog2_unique:
  assumes "pow2 e \<le> q" "q < pow2 (e + 1)"
  shows "ilog2 q = e"
proof -
  have q: "0 < q" using assms(1) pow2_pos [of e] by linarith
  have "pow2 (ilog2 q) \<le> q" "q < pow2 (ilog2 q + 1)"
    using ilog2_bounds [OF q] by simp_all
  with assms have "pow2 (ilog2 q) < pow2 (e + 1)" "pow2 e < pow2 (ilog2 q + 1)"
    by linarith+
  then have "ilog2 q < e + 1" "e < ilog2 q + 1"
    using pow2_less_cancel by blast+
  then show ?thesis by simp
qed

lemma fl_at_exponent:
  assumes "pow2 e \<le> q" "q < pow2 (e + 1)"
  shows "fl q = of_int (round_half_even (q / pow2 (e - 52))) * pow2 (e - 52)"
proof -
  have q: "0 < q" using assms(1) pow2_pos [of e] by linarith
  then show ?thesis
    using ilog2_unique [OF assms] by (simp add: fl_def Let_def)
qed

lemma fl_binade:
  "1/16 \<le> q \<Longrightarrow> q < 1/8 \<Longrightarrow>
     fl q = of_int (round_half_even (q * 72057594037927936)) / 72057594037927936"
  "1/8 \<le> q \<Longrightarrow> q < 1/4 \<Longrightarrow>
     fl q = of_int (round_half_even (q * 36028797018963968)) / 36028797018963968"
  "1/4 \<le> q \<Longrightarrow> q < 1/2 \<Longrightarrow>
     fl q = of_int (round_half_even (q * 18014398509481984)) / 18014398509481984"
  "1/2 \<le> q \<Longrightarrow> q < 1 \<Longrightarrow>
     fl q = of_int (round_half_even (q * 9007199254740992)) / 9007199254740992"
  "1 \<le> q \<Longrightarrow> q < 2 \<Longrightarrow>
     fl q = of_int (round_half_even (q * 4503599627370496)) / 4503599627370496"
  "2 \<le> q \<Longrightarrow> q < 4 \<Longrightarrow>
     fl q = of_int (round_half_even (q * 2251799813685248)) / 2251799813685248"
  "4 \<le> q \<Longrightarrow> q < 8 \<Longrightarrow>
     fl q = of_int (round_half_even (q * 1125899906842624)) / 1125899906842624"
proof -
  show "1/16 \<le> q \<Longrightarrow> q < 1/8 \<Longrightarrow>
     fl q = of_int (round_half_even (q * 72057594037927936)) / 72057594037927936"
    using fl_at_exponent [of "-4" q] by (simp add: pow2_def)
  show "1/8 \<le> q \<Longrightarrow> q < 1/4 \<Longrightarrow>
     fl q = of_int (round_half_even (q * 36028797018963968)) / 36028797018963968"
    using fl_at_exponent [of "-3" q] by (simp add: pow2_def)
  show "1/4 \<le> q \<Longrightarrow> q < 1/2 \<Longrightarrow>
     fl q = of_int (round_half_even (q * 18014398509481984)) / 18014398509481984"
    using fl_at_exponent [of "-2" q] by (simp add: pow2_def)
  show "1/2 \<le> q \<Longrightarrow> q < 1 \<Longrightarrow>
     fl q = of_int (round_half_even (q * 9007199254740992)) / 9007199254740992"
    using fl_at_exponent [of "-1" q] by (simp add: pow2_def)
  show "1 \<le> q \<Longrightarrow> q < 2 \<Longrightarrow>
     fl q = of_int (round_half_even (q * 4503599627370496)) / 4503599627370496"
    using fl_at_exponent [of 0 q] by (simp add: pow2_def)
  show "2 \<le> q \<Longrightarrow> q < 4 \<Longrightarrow>
     fl q = of_int (round_half_even (q * 2251799813685248)) / 2251799813685248"
    using fl_at_exponent [of 1 q] by (simp add: pow2_def)
  show "4 \<le> q \<Longrightarrow> q < 8 \<Longrightarrow>
     fl q = of_int (round_half_even (q * 1125899906842624)) / 1125899906842624"
    using fl_at_exponent [of 2 q] by (simp add: pow2_def)
qed

lemma round_half_even_numeral: "round_half_even (numeral a) = numeral a"
  using round_half_even_of_int [of "numeral a"] by simp

lemma round_half_even_of_int_div:
  assumes "0 < b"
  shows "round_half_even (of_int a / of_int b) =
     (if 2 * (a mod b) < b then a div b
      else if b < 2 * (a mod b) then a div b + 1
      else if even (a div b) then a div b
      else a div b + 1)"
proof -
  have b: "(0::rat) < of_int b" using assms by simp
  have fl: "\<lfloor>(of_int a / of_int b :: rat)\<rfloor> = a div b"
    by (rule floor_divide_of_int_eq)
  have "(of_int a :: rat) = of_int (a div b * b + a mod b)" by simp
  then have "(of_int a :: rat) = of_int (a div b) * of_int b + of_int (a mod b)"
    by (simp only: of_int_add of_int_mult)
  then have d: "(of_int a / of_int b :: rat) - of_int (a div b) = of_int (a mod b) / of_int b"
    using b by (simp add: field_simps)
  have h1: "(of_int (a mod b) / of_int b < (1/2 :: rat)) = (2 * (a mod b) < b)"
  proof -
    have "(of_int (a mod b) / of_int b < (1/2 :: rat)) = ((of_int (2 * (a mod b)) :: rat) < of_int b)"
      using b by (simp add: field_simps)
    then show ?thesis by (simp only: of_int_less_iff)
  qed
  have h2: "((1/2 :: rat) < of_int (a mod b) / of_int b) = (b < 2 * (a mod b))"
  proof -
    have "((1/2 :: rat) < of_int (a mod b) / of_int b) = ((of_int b :: rat) < of_int (2 * (a mod b)))"
      using b by (simp add: field_simps)
    then show ?thesis by (simp only: of_int_less_iff)
  qed
  show ?thesis
    unfolding round_half_even_def Let_def fl d h1 h2 ..
qed

lemmas round_half_even_fraction =
  round_half_even_of_int_div [of "numeral b" "numeral a", unfolded of_int_numeral, OF zero_less_numeral] for a b

lemma round_half_even_zero_one: "round_half_even 0 = 0" "round_half_even 1 = 1"
  using round_half_even_of_int [of 0] round_half_even_of_int [of 1] by simp_all

lemmas fl_fraction = fl_binade [of "numeral a / numeral b"] for a b

lemmas fl_unit_fraction = fl_binade [of "1 / numeral b"] for b

lemmas fl_numeral = fl_binade(6,7) [of "numeral a"] for a

lemmas fl_simps = fl_zero fl_one fl_fraction fl_unit_fraction fl_numeral round_half_even_numeral
  round_half_even_fraction round_half_even_zero_one

section \<open>The loops and the sort\<close>

lemma py_round2_unit:
  assumes "0 \<le> x" "x \<le> 1"
  shows "0 \<le> py_round2 x" and "py_round2 x \<le> 1"
proof -
  let ?n = "round_half_even (x * 100)"
  have "round_half_even (of_int 0) \<le> ?n"
    using assms(1) by (intro round_half_even_mono) simp
  then have n0: "0 \<le> ?n" by (simp only: round_half_even_of_int)
  have "?n \<le> round_half_even (of_int 100)"
    using assms(2) by (intro round_half_even_mono) simp
  then have n1: "?n \<le> 100" by (simp only: round_half_even_of_int)
  have q0: "(0::rat) \<le> of_int ?n / 100" using n0 by simp
  have "(of_int ?n :: rat) \<le> of_int 100" using n1 by (simp only: of_int_le_iff)
  then have q1: "(of_int ?n :: rat) / 100 \<le> 1" by simp
  show "0 \<le> py_round2 x"
    unfolding py_round2_def using q0 by (rule fl_nonneg)
  show "py_round2 x \<le> 1"
    unfolding py_round2_def using fl_mono [OF q0 q1] by (simp add: fl_one)
qed

lemma Match_init_admitted:
  "Match_init (Startup.oid s) ''startup'' (Investor.oid i) ''investor''
     (py_round2 (score body s i)) (Some ''Heuristic overlap on filters'')
   = Inr (match_of body (s, i))"
proof -
  have "0 \<le> score body s i" "score body s i \<le> 1"
    by (simp_all add: score_def)
  then have "0 \<le> py_round2 (score body s i)" "py_round2 (score body s i) \<le> 1"
    by (rule py_round2_unit)+
  then show ?thesis
    by (simp add: Match_init_def match_of_def)
qed

lemma inner_loop_eq:
  "inner_loop body s investors results =
     Inr (results @ map (match_of body) (filter (admitted body) (map (Pair s) investors)))"
proof (induction investors arbitrary: results)
  case Nil
  show ?case by simp
next
  case (Cons i investors)
  show ?case
    by (simp add: Let_def Match_init_admitted Cons.IH admitted_def)
qed

lemma outer_loop_eq:
  "outer_loop body startups investors results =
     Inr (results @ map (match_of body) (filter (admitted body) (List.product startups investors)))"
proof (induction startups arbitrary: results)
  case Nil
  show ?case by simp
next
  case (Cons s startups)
  show ?case
    by (simp add: inner_loop_eq Cons.IH)
qed

lemma get_matches_eq:
  "get_matches body startups investors =
     Inr (take 50 (sort_reverse Match.score
       (map (match_of body) (filter (admitted body) (List.product startups investors)))))"
  by (simp add: get_matches_def outer_loop_eq)

lemma sort_reverse_sorted: "sorted_wrt (\<lambda>a b. key b \<le> key a) (sort_reverse key xs)"
proof -
  have "sorted_wrt (\<lambda>a b. key a \<le> key b) (sort_key key (rev xs))"
    using sorted_sort_key [of key "rev xs"] by (simp add: sorted_wrt_map)
  then show ?thesis
    by (simp add: sort_reverse_def sorted_wrt_rev)
qed

lemma sort_reverse_stable:
  "filter (\<lambda>x. key x = k) (sort_reverse key xs) = filter (\<lambda>x. key x = k) xs"
  by (simp add: sort_reverse_def rev_filter [symmetric] sort_key_stable)

lemma set_sort_reverse: "set (sort_reverse key xs) = set xs"
  by (simp add: sort_reverse_def)

lemma length_sort_reverse: "length (sort_reverse key xs) = length xs"
  by (simp add: sort_reverse_def)

section \<open>Evaluating the scorer on concrete inputs\<close>

lemma py_round2_mono:
  assumes "0 \<le> x" "x \<le> y"
  shows "py_round2 x \<le> py_round2 y"
proof -
  have "round_half_even (of_int 0) \<le> round_half_even (x * 100)"
    using assms(1) by (intro round_half_even_mono) simp
  then have n0: "0 \<le> round_half_even (x * 100)" by (simp only: round_half_even_of_int)
  have "round_half_even (x * 100) \<le> round_half_even (y * 100)"
    using assms(2) by (intro round_half_even_mono) simp
  then have "(of_int (round_half_even (x * 100)) :: rat) / 100 \<le> of_int (round_half_even (y * 100)) / 100"
    by (simp add: divide_right_mono)
  moreover have "(0::rat) \<le> of_int (round_half_even (x * 100)) / 100" using n0 by simp
  ultimately show ?thesis
    unfolding py_round2_def by (intro fl_mono)
qed

lemma fl_literals:
  "fl (1/10) = 3602879701896397 / 36028797018963968"
  "fl (2/10) = 3602879701896397 / 18014398509481984"
  "fl (4/10) = 3602879701896397 / 9007199254740992"
  "fl (15/100) = 5404319552844595 / 36028797018963968"
  by (simp_all add: fl_simps)

lemma py_round2_threshold: "py_round2 (fl (2/10)) = fl (2/10)"
  by (simp add: py_round2_def fl_simps)

lemma add_industry_eval:
  "MatchQuery.industry body = None \<Longrightarrow> add_industry body si s = s"
  "MatchQuery.industry body = Some [] \<Longrightarrow> add_industry body si s = s"
  "MatchQuery.industry body = Some (t # ts) \<Longrightarrow> add_industry body si s =
     fadd s (industry_points (card (set (Startup.industry si) \<inter> set (t # ts))))"
  by (simp_all add: add_industry_def)

lemma industry_points_small:
  "industry_points 0 = 0"
  "industry_points (Suc 0) = 3602879701896397 / 36028797018963968"
  "industry_points 2 = 3602879701896397 / 18014398509481984"
  "industry_points 3 = 1351079888211149 / 4503599627370496"
  "industry_points 4 = 3602879701896397 / 9007199254740992"
  by (simp_all add: industry_points_def fmul_def fl_simps)

lemmas score_steps = score_def add_industry_eval add_stage_def add_geography_def
  add_ticket_min_def add_ticket_max_def fadd_def

lemma score_examples:
  "score query_ex startup_a investor_x = 5404319552844595 / 18014398509481984"
  "score query_ex startup_a investor_y = 0"
  "score query_ex startup_b investor_x = 1351079888211149 / 2251799813685248"
  "score query_ex startup_b investor_y = 1351079888211149 / 4503599627370496"
  by (simp_all add: query_ex_def startup_a_def startup_b_def investor_x_def investor_y_def
      score_steps industry_points_small fl_simps)

lemma py_round2_examples:
  "py_round2 (5404319552844595 / 18014398509481984) = 5404319552844595 / 18014398509481984"
  "py_round2 (1351079888211149 / 2251799813685248) = 5404319552844595 / 9007199254740992"
  "py_round2 (1351079888211149 / 4503599627370496) = 5404319552844595 / 18014398509481984"
  by (simp_all add: py_round2_def fl_simps)

lemma get_matches_example:
  "get_matches query_ex [startup_a, startup_b] [investor_x, investor_y] =
     Inr [match_of query_ex (startup_b, investor_x), match_of query_ex (startup_a, investor_x),
          match_of query_ex (startup_b, investor_y)]"
  by (simp add: get_matches_eq admitted_def score_examples py_round2_examples sort_reverse_def
      match_of_def fl_simps)

section \<open>The score\<close>

text \<open>
  C1. For every preference query, startup and investor the heuristic score lies in the
  closed interval from 0 to 1: the last statement of \<open>score\<close> clamps whatever the five
  additions produced.
\<close>

theorem score_in_unit_interval:
  "0 \<le> score body si iv \<and> score body si iv \<le> 1"
  by (simp add: score_def)

end
